theory Spec2Isabelle
  imports Complex_Main
begin

section \<open>Signal fusion (main.py, run_trading_engine)\<close>

text \<open>
  Python floats are idealised as reals throughout; the literal \<open>-0.3\<close> is the rational
  \<open>-3/10\<close>. Signals are Python ints.

  \<^verbatim>\<open>ml_sig = 1 if ml_raw == 1 else -1\<close>
\<close>

definition ml_signal :: "int \<Rightarrow> int" where
  "ml_signal ml_raw = (if ml_raw = 1 then 1 else -1)"

text \<open>
  \<^verbatim>\<open>final_sig = 0
  if sentiment > -0.3 and (ml_sig == rl_act != 0 or ml_sig == strat_sig != 0):
      final_sig = ml_sig\<close>
  A chained comparison \<open>a == b != 0\<close> is \<open>a == b and b != 0\<close>.
\<close>

definition fuse :: "int \<Rightarrow> int \<Rightarrow> int \<Rightarrow> real \<Rightarrow> int" where
  "fuse strat_sig ml_sig rl_act sentiment =
     (if sentiment > -3/10 \<and>
         ((ml_sig = rl_act \<and> rl_act \<noteq> 0) \<or> (ml_sig = strat_sig \<and> strat_sig \<noteq> 0))
      then ml_sig else 0)"

text \<open>
  The part of one pair's iteration that produces the final signal. A sentiment strictly
  below \<open>-0.3\<close> leaves the iteration with \<open>continue\<close> before any signal is computed.
\<close>

datatype signal_outcome = Skipped | Decided int

definition signal_stage :: "real \<Rightarrow> int \<Rightarrow> int \<Rightarrow> int \<Rightarrow> signal_outcome" where
  "signal_stage sentiment strat_sig ml_raw rl_act =
     (if sentiment < -3/10 then Skipped
      else Decided (fuse strat_sig (ml_signal ml_raw) rl_act sentiment))"

text \<open>
  The guard of the OPEN branch: \<^verbatim>\<open>if trade: ... elif final_sig != 0 and adj_size > 0:\<close>;
  a skipped iteration never reaches it.
\<close>

definition opens_trade :: "signal_outcome \<Rightarrow> bool \<Rightarrow> real \<Rightarrow> bool" where
  "opens_trade outcome has_trade adj_size =
     (case outcome of
        Skipped \<Rightarrow> False
      | Decided final_sig \<Rightarrow> \<not> has_trade \<and> final_sig \<noteq> 0 \<and> adj_size > 0)"

section \<open>Risk gate (risk_management.py)\<close>

definition MAX_RISK_PER_TRADE :: real where
  "MAX_RISK_PER_TRADE = 2/100"

text \<open>
  Python's \<^verbatim>\<open>round(size, 2)\<close> rounds to the nearest multiple of 0.01, a tie going to
  the even neighbour.
\<close>

definition round_half_even :: "real \<Rightarrow> int" where
  "round_half_even y =
     (let f = \<lfloor>y\<rfloor>; d = y - of_int f
      in if d < 1/2 then f else if d > 1/2 then f + 1 else if even f then f else f + 1)"

definition round2 :: "real \<Rightarrow> real" where
  "round2 x = of_int (round_half_even (x * 100)) / 100"

text \<open>
  \<^verbatim>\<open>if atr_value <= 0 or equity <= 0: return 0.0
  dollar_risk = equity * risk_per_trade
  size = dollar_risk / atr_value
  return round(size, 2)\<close>
\<close>

definition position_size :: "real \<Rightarrow> real \<Rightarrow> real \<Rightarrow> real" where
  "position_size equity atr_value risk_per_trade =
     (if atr_value \<le> 0 \<or> equity \<le> 0 then 0
      else let dollar_risk = equity * risk_per_trade;
               size = dollar_risk / atr_value
           in round2 size)"

section \<open>Exit triggers (exit_strategy.py and the EXIT branch of main.py)\<close>

definition MAX_HOLD_TIME_MINUTES :: int where
  "MAX_HOLD_TIME_MINUTES = 120"

text \<open>
  Times are seconds on the UTC clock. \<open>current_time\<close> is optional in the source and
  defaults to the clock reading \<open>utcnow\<close>.
  \<^verbatim>\<open>elapsed = current_time - entry_time
  should_exit = elapsed.total_seconds() > MAX_HOLD_TIME_MINUTES * 60\<close>
\<close>

definition check_time_exit :: "real \<Rightarrow> real option \<Rightarrow> real \<Rightarrow> bool" where
  "check_time_exit entry_time current_time utcnow =
     (let current = (case current_time of None \<Rightarrow> utcnow | Some t \<Rightarrow> t);
          elapsed = current - entry_time
      in elapsed > of_int (MAX_HOLD_TIME_MINUTES * 60))"

record open_trade =
  entry_price :: real
  entry_time :: real
  trade_size :: real
  signal :: int

text \<open>
  \<^verbatim>\<open>sl = (exec_exit - entry_price)/entry_price <= -2 * df["atr"].iloc[-1] / entry_price
  tp = (exec_exit - entry_price)/entry_price >= 2 * df["atr"].iloc[-1] / entry_price
  tte = check_time_exit(entry_time, now)
  if sl or tp or tte: ...\<close>
\<close>

definition sl :: "open_trade \<Rightarrow> real \<Rightarrow> real \<Rightarrow> bool" where
  "sl trade exec_exit atr =
     ((exec_exit - entry_price trade) / entry_price trade \<le> -2 * atr / entry_price trade)"

definition tp :: "open_trade \<Rightarrow> real \<Rightarrow> real \<Rightarrow> bool" where
  "tp trade exec_exit atr =
     ((exec_exit - entry_price trade) / entry_price trade \<ge> 2 * atr / entry_price trade)"

definition tte :: "open_trade \<Rightarrow> real \<Rightarrow> bool" where
  "tte trade now = check_time_exit (entry_time trade) (Some now) now"

definition closes_trade :: "open_trade \<Rightarrow> real \<Rightarrow> real \<Rightarrow> real \<Rightarrow> bool" where
  "closes_trade trade exec_exit atr now =
     (sl trade exec_exit atr \<or> tp trade exec_exit atr \<or> tte trade now)"

text \<open>
  The reward shaping reads the take-profit flag:
  \<^verbatim>\<open>shaped = pnl * (1.1 if tp else 1) - DRAWDOWN_PENALTY_WEIGHT * abs(min(dd, 0))\<close>
\<close>

definition DRAWDOWN_PENALTY_WEIGHT :: real where
  "DRAWDOWN_PENALTY_WEIGHT = 2"

definition shaped :: "real \<Rightarrow> bool \<Rightarrow> real \<Rightarrow> real" where
  "shaped pnl tp_flag dd =
     pnl * (if tp_flag then 11/10 else 1) - DRAWDOWN_PENALTY_WEIGHT * \<bar>min dd 0\<bar>"

text \<open>
  The triggers as the specification words them, relative to the direction \<open>d\<close> of the
  position: an adverse, respectively favourable, move of at least twice the ATR.
\<close>

definition adverse_move :: "open_trade \<Rightarrow> real \<Rightarrow> real \<Rightarrow> bool" where
  "adverse_move trade exec_exit atr =
     (of_int (signal trade) * (exec_exit - entry_price trade) \<le> - (2 * atr))"

definition favourable_move :: "open_trade \<Rightarrow> real \<Rightarrow> real \<Rightarrow> bool" where
  "favourable_move trade exec_exit atr =
     (of_int (signal trade) * (exec_exit - entry_price trade) \<ge> 2 * atr)"

section \<open>Q-learning agent (rl_agent.py)\<close>

subsection \<open>Python values, exceptions, configuration\<close>

text \<open>
  The arguments the agent validates are arbitrary Python objects. \<open>bool\<close> is a subclass
  of \<open>int\<close>, so \<^verbatim>\<open>isinstance(True, int)\<close> holds, and as a dictionary key \<open>True\<close> is
  \<open>1\<close> and \<open>False\<close> is \<open>0\<close>.
\<close>

datatype pyval =
    PNone
  | PBool bool
  | PInt int
  | PFloat real
  | PStr string
  | PList "pyval list"
  | PTuple "pyval list"

datatype error =
    ValueError_state_not_tuple
  | ValueError_element_not_int
  | ValueError_not_in_list
  | ValueError_empty_sequence
  | IndexError
  | KeyError

text \<open>A call either raises or returns; the agent it has mutated is kept beside it.\<close>

datatype 'a outcome = Raised error | Returned 'a

definition ALPHA :: real where "ALPHA = 1/10"
definition GAMMA :: real where "GAMMA = 95/100"
definition EPSILON_START :: real where "EPSILON_START = 5/10"
definition EPSILON_MIN :: real where "EPSILON_MIN = 5/100"
definition EPSILON_DECAY :: real where "EPSILON_DECAY = 995/1000"

definition ACTIONS :: "int list" where
  "ACTIONS = [-1, 0, 1]"

text \<open>
  The attributes of a \<open>QLearningAgent\<close>, but for \<open>verbose\<close>, which only switches printing.
  A key of the Q-table is a tuple of ints; a value row is a numpy array of floats, one per
  action.
\<close>

type_synonym state_key = "int list"

record agent =
  actions :: "int list"
  alpha :: real
  gamma :: real
  epsilon :: real
  epsilon_min :: real
  epsilon_decay :: real
  q_table :: "state_key \<rightharpoonup> real list"

definition QLearningAgent :: "int list \<Rightarrow> agent" where
  "QLearningAgent acts =
     \<lparr>actions = acts, alpha = ALPHA, gamma = GAMMA, epsilon = EPSILON_START,
      epsilon_min = EPSILON_MIN, epsilon_decay = EPSILON_DECAY, q_table = Map.empty\<rparr>"

subsection \<open>Library functions the agent calls\<close>

text \<open>\<^verbatim>\<open>list.index(x)\<close>: the first position of \<open>x\<close>, ValueError (here \<open>None\<close>) when absent.\<close>

fun index_of :: "'a list \<Rightarrow> 'a \<Rightarrow> nat option" where
  "index_of [] x = None"
| "index_of (y # ys) x = (if y = x then Some 0 else map_option Suc (index_of ys x))"

definition np_zeros :: "nat \<Rightarrow> real list" where
  "np_zeros n = replicate n 0"

text \<open>\<^verbatim>\<open>np.max\<close> and \<^verbatim>\<open>np.argmax\<close> raise ValueError on an empty array; argmax is the first maximum.\<close>

definition np_max :: "real list \<Rightarrow> real option" where
  "np_max xs = (if xs = [] then None else Some (Max (set xs)))"

definition np_argmax :: "real list \<Rightarrow> nat option" where
  "np_argmax xs = (if xs = [] then None else index_of xs (Max (set xs)))"

text \<open>
  \<^verbatim>\<open>np.random.choice(xs)\<close> with the random draw \<open>pick\<close> made a parameter: some element of
  \<open>xs\<close>, ValueError when \<open>xs\<close> is empty.
\<close>

definition random_choice :: "'a list \<Rightarrow> nat \<Rightarrow> 'a option" where
  "random_choice xs pick = (if xs = [] then None else Some (xs ! (pick mod length xs)))"

subsection \<open>The agent's methods\<close>

fun is_int_instance :: "pyval \<Rightarrow> bool" where
  "is_int_instance (PInt i) = True"
| "is_int_instance (PBool b) = True"
| "is_int_instance v = False"

fun int_value :: "pyval \<Rightarrow> int" where
  "int_value (PInt i) = i"
| "int_value (PBool b) = (if b then 1 else 0)"
| "int_value v = 0"

text \<open>
  \<^verbatim>\<open>if not isinstance(state, tuple): raise ValueError(...)
  for s in state:
      if not isinstance(s, int): raise ValueError(...)
  return state\<close>
  The returned tuple is given as the key it is in the Q-table dictionary.
\<close>

definition validate_state :: "pyval \<Rightarrow> error + state_key" where
  "validate_state state =
     (case state of
        PTuple xs \<Rightarrow>
          if list_all is_int_instance xs then Inr (map int_value xs)
          else Inl ValueError_element_not_int
      | _ \<Rightarrow> Inl ValueError_state_not_tuple)"

text \<open>
  \<^verbatim>\<open>state = self.validate_state(state)
  if state not in self.q_table:
      self.q_table[state] = np.zeros(len(self.actions))
  return self.q_table[state]\<close>
\<close>

definition get_qs :: "agent \<Rightarrow> pyval \<Rightarrow> (real list) outcome \<times> agent" where
  "get_qs ag state =
     (case validate_state state of
        Inl e \<Rightarrow> (Raised e, ag)
      | Inr k \<Rightarrow>
          (case q_table ag k of
             None \<Rightarrow>
               let row = np_zeros (length (actions ag))
               in (Returned row, ag\<lparr>q_table := (q_table ag)(k \<mapsto> row)\<rparr>)
           | Some row \<Rightarrow> (Returned row, ag)))"

text \<open>
  \<open>rand\<close> is the value of \<^verbatim>\<open>np.random.rand()\<close> and \<open>pick\<close> the draw of
  \<^verbatim>\<open>np.random.choice\<close>.
  \<^verbatim>\<open>state = self.validate_state(state)
  if np.random.rand() < self.epsilon:
      action = np.random.choice(self.actions)
  else:
      qs = self.get_qs(state)
      action = self.actions[np.argmax(qs)]
  return action\<close>
\<close>

definition choose_action :: "agent \<Rightarrow> pyval \<Rightarrow> real \<Rightarrow> nat \<Rightarrow> int outcome \<times> agent" where
  "choose_action ag state rand pick =
     (case validate_state state of
        Inl e \<Rightarrow> (Raised e, ag)
      | Inr k \<Rightarrow>
          if rand < epsilon ag then
            (case random_choice (actions ag) pick of
               None \<Rightarrow> (Raised ValueError_empty_sequence, ag)
             | Some action \<Rightarrow> (Returned action, ag))
          else
            (case get_qs ag state of
               (Raised e, ag1) \<Rightarrow> (Raised e, ag1)
             | (Returned qs, ag1) \<Rightarrow>
                 (case np_argmax qs of
                    None \<Rightarrow> (Raised ValueError_empty_sequence, ag1)
                  | Some i \<Rightarrow>
                      if i < length (actions ag1) then (Returned (actions ag1 ! i), ag1)
                      else (Raised IndexError, ag1))))"

text \<open>
  \<^verbatim>\<open>state = self.validate_state(state)
  next_state = self.validate_state(next_state)
  action_idx = self.actions.index(action)
  current_q = self.get_qs(state)[action_idx]
  next_max_q = np.max(self.get_qs(next_state))
  target_q = reward + self.gamma * next_max_q
  self.q_table[state][action_idx] += self.alpha * (target_q - current_q)
  if self.epsilon > self.epsilon_min:
      self.epsilon = max(self.epsilon * self.epsilon_decay, self.epsilon_min)\<close>
\<close>

definition learn :: "agent \<Rightarrow> pyval \<Rightarrow> int \<Rightarrow> real \<Rightarrow> pyval \<Rightarrow> unit outcome \<times> agent" where
  "learn ag state action reward next_state =
     (case validate_state state of
        Inl e \<Rightarrow> (Raised e, ag)
      | Inr k \<Rightarrow>
     (case validate_state next_state of
        Inl e \<Rightarrow> (Raised e, ag)
      | Inr k' \<Rightarrow>
     (case index_of (actions ag) action of
        None \<Rightarrow> (Raised ValueError_not_in_list, ag)
      | Some action_idx \<Rightarrow>
     (case get_qs ag state of
        (Raised e, ag1) \<Rightarrow> (Raised e, ag1)
      | (Returned qs, ag1) \<Rightarrow>
     if \<not> action_idx < length qs then (Raised IndexError, ag1)
     else
       let current_q = qs ! action_idx in
     (case get_qs ag1 next_state of
        (Raised e, ag2) \<Rightarrow> (Raised e, ag2)
      | (Returned next_qs, ag2) \<Rightarrow>
     (case np_max next_qs of
        None \<Rightarrow> (Raised ValueError_empty_sequence, ag2)
      | Some next_max_q \<Rightarrow>
       let target_q = reward + gamma ag2 * next_max_q in
     (case q_table ag2 k of
        None \<Rightarrow> (Raised KeyError, ag2)
      | Some row \<Rightarrow>
     if \<not> action_idx < length row then (Raised IndexError, ag2)
     else
       let new_q = row ! action_idx + alpha ag2 * (target_q - current_q);
           ag3 = ag2\<lparr>q_table := (q_table ag2)(k \<mapsto> row[action_idx := new_q])\<rparr>;
           ag4 = (if epsilon ag3 > epsilon_min ag3
                  then ag3\<lparr>epsilon := max (epsilon ag3 * epsilon_decay ag3) (epsilon_min ag3)\<rparr>
                  else ag3)
       in (Returned (), ag4))))))))"

subsection \<open>Discretization function\<close>

text \<open>
  The readings are floating-point numbers: a finite value (a Python int included), an
  infinity or NaN. \<^verbatim>\<open>np.digitize([x], bins)[0]\<close> for increasing \<open>bins\<close> is
  \<^verbatim>\<open>searchsorted(bins, x, side='right')\<close>, the number of bins that are at most \<open>x\<close> in
  numpy's sort order, which puts NaN after every number.
\<close>

datatype npfloat = Fin real | PosInf | NegInf | NaN

fun bin_le :: "real \<Rightarrow> npfloat \<Rightarrow> bool" where
  "bin_le b (Fin x) = (b \<le> x)"
| "bin_le b PosInf = True"
| "bin_le b NegInf = False"
| "bin_le b NaN = True"

definition digitize :: "npfloat \<Rightarrow> real list \<Rightarrow> nat" where
  "digitize x bins = length (filter (\<lambda>b. bin_le b x) bins)"

text \<open>\<^verbatim>\<open>int(x)\<close> of a finite float truncates towards zero.\<close>

definition py_int :: "real \<Rightarrow> int" where
  "py_int x = (if x \<ge> 0 then \<lfloor>x\<rfloor> else \<lceil>x\<rceil>)"

text \<open>
  \<^verbatim>\<open>int(ema_cross) if ema_cross in (-1, 0, 1) else 0\<close>; NaN and the infinities equal
  none of the three.
\<close>

definition cross_value :: "npfloat \<Rightarrow> int" where
  "cross_value c =
     (case c of
        Fin x \<Rightarrow> if x = -1 \<or> x = 0 \<or> x = 1 then py_int x else 0
      | _ \<Rightarrow> 0)"

text \<open>
  \<^verbatim>\<open>pc_bins = [-0.001, 0.001]
  rsi_bins = [30, 70]
  vol_bins = [0.0005, 0.0015]
  pc_bucket = int(np.digitize([price_change_pct], pc_bins)[0]) - 1
  rsi_bucket = int(np.digitize([rsi], rsi_bins)[0])
  vol_bucket = int(np.digitize([volatility], vol_bins)[0])
  ema_cross = int(ema_cross) if ema_cross in (-1, 0, 1) else 0
  macd_cross = int(macd_cross) if macd_cross in (-1, 0, 1) else 0
  return (pc_bucket, rsi_bucket, ema_cross, macd_cross, vol_bucket)\<close>
  No statement can raise on a float: \<open>np.digitize\<close> accepts every float for increasing
  bins, and \<open>int\<close> is applied to -1, 0 and 1 only.
\<close>

definition discretize_state ::
  "npfloat \<Rightarrow> npfloat \<Rightarrow> npfloat \<Rightarrow> npfloat \<Rightarrow> npfloat \<Rightarrow> pyval" where
  "discretize_state price_change_pct rsi ema_cross macd_cross volatility =
     (let pc_bins = [-1/1000, 1/1000];
          rsi_bins = [30, 70];
          vol_bins = [5/10000, 15/10000];
          pc_bucket = int (digitize price_change_pct pc_bins) - 1;
          rsi_bucket = int (digitize rsi rsi_bins);
          vol_bucket = int (digitize volatility vol_bins);
          ema = cross_value ema_cross;
          macd = cross_value macd_cross
      in PTuple [PInt pc_bucket, PInt rsi_bucket, PInt ema, PInt macd, PInt vol_bucket])"

text \<open>
  A three-way bin at the thresholds \<open>lo\<close> and \<open>hi\<close>: 0 below \<open>lo\<close>, 1 from \<open>lo\<close> up to
  but not including \<open>hi\<close>, 2 from \<open>hi\<close> on, and 2 for NaN.
\<close>

definition bin3 :: "real \<Rightarrow> real \<Rightarrow> npfloat \<Rightarrow> int" where
  "bin3 lo hi x =
     (case x of
        Fin v \<Rightarrow> if v < lo then 0 else if v < hi then 1 else 2
      | NegInf \<Rightarrow> 0
      | PosInf \<Rightarrow> 2
      | NaN \<Rightarrow> 2)"

subsection \<open>Reading the table, and sequences of calls\<close>

text \<open>The value row of a key, an absent key read as the all-zero row.\<close>

definition q_row :: "agent \<Rightarrow> state_key \<Rightarrow> real list" where
  "q_row ag k =
     (case q_table ag k of None \<Rightarrow> np_zeros (length (actions ag)) | Some row \<Rightarrow> row)"

definition q_value :: "agent \<Rightarrow> state_key \<Rightarrow> int \<Rightarrow> real" where
  "q_value ag k action =
     (case index_of (actions ag) action of None \<Rightarrow> 0 | Some i \<Rightarrow> q_row ag k ! i)"

text \<open>
  A caller's sequence of method calls on one agent. A call that raises leaves the agent as
  it was when the exception left the method; the engine's loop catches it and goes on.
\<close>

datatype call =
    ChooseAction pyval real nat
  | Learn pyval int real pyval

fun apply_call :: "agent \<Rightarrow> call \<Rightarrow> agent" where
  "apply_call ag (ChooseAction state rand pick) = snd (choose_action ag state rand pick)"
| "apply_call ag (Learn state action reward next_state) =
     snd (learn ag state action reward next_state)"

text \<open>The agent before the first call and after each call.\<close>

fun run_calls :: "agent \<Rightarrow> call list \<Rightarrow> agent list" where
  "run_calls ag [] = [ag]"
| "run_calls ag (c # cs) = ag # run_calls (apply_call ag c) cs"

fun learn_times :: "nat \<Rightarrow> agent \<Rightarrow> pyval \<Rightarrow> int \<Rightarrow> real \<Rightarrow> pyval \<Rightarrow> agent" where
  "learn_times 0 ag state action reward next_state = ag"
| "learn_times (Suc n) ag state action reward next_state =
     learn_times n (snd (learn ag state action reward next_state)) state action reward next_state"

subsection \<open>Well-formed states\<close>

text \<open>
  A state is well formed for the agent when it is a tuple whose components are all
  instances of \<open>int\<close>; the two ValueErrors of \<open>validate_state\<close> are the validation errors.
\<close>

definition valid_state :: "pyval \<Rightarrow> bool" where
  "valid_state state =
     (case state of PTuple xs \<Rightarrow> list_all is_int_instance xs | _ \<Rightarrow> False)"

definition is_validation_error :: "error \<Rightarrow> bool" where
  "is_validation_error e = (e = ValueError_state_not_tuple \<or> e = ValueError_element_not_int)"

subsection \<open>Invariants of an agent\<close>

text \<open>
  Every value row has one entry per action. The constructor establishes this and the
  methods keep it; a table put in place by \<open>load\<close> is outside it.
\<close>

definition rows_ok :: "agent \<Rightarrow> bool" where
  "rows_ok ag = (\<forall>row \<in> ran (q_table ag). length row = length (actions ag))"

text \<open>The exploration rate after the last statement of \<open>learn\<close>.\<close>

definition decayed :: "agent \<Rightarrow> real" where
  "decayed ag =
     (if epsilon ag > epsilon_min ag
      then max (epsilon ag * epsilon_decay ag) (epsilon_min ag) else epsilon ag)"

text \<open>
  What the constructor establishes and every method call keeps: the default actions, full
  rows, the configured hyperparameters, and an exploration rate between its floor and its
  start value.
\<close>

definition agent_inv :: "agent \<Rightarrow> bool" where
  "agent_inv ag \<longleftrightarrow>
     actions ag = ACTIONS \<and> rows_ok ag \<and> alpha ag = ALPHA \<and> gamma ag = GAMMA
     \<and> epsilon_min ag = EPSILON_MIN \<and> epsilon_decay ag = EPSILON_DECAY
     \<and> EPSILON_MIN \<le> epsilon ag \<and> epsilon ag \<le> EPSILON_START"

text \<open>The temporal-difference target of a \<open>learn\<close> call with the given reward and next state.\<close>

definition td_target :: "agent \<Rightarrow> real \<Rightarrow> state_key \<Rightarrow> real" where
  "td_target ag reward k2 = reward + gamma ag * Max (set (q_row ag k2))"

section \<open>Properties of the fusion policy\<close>

text \<open>
  C1. With the sentiment above the bearish threshold, the final signal is the ML signal
  exactly when the ML signal is non-zero and equals the RL action or the strategy signal,
  and is 0 otherwise. For the ML signal the engine computes (always 1 or -1) the final
  signal equals it if and only if that agreement condition holds. ml=1, rl=1, strategy=-1
  at sentiment 0 gives 1; three non-zero signals of which the ML signal agrees with
  neither of the others give 0.
\<close>

theorem fuse_agreement_rule:
  "sentiment > -3/10 \<Longrightarrow>
     fuse strat_sig ml_sig rl_act sentiment =
       (if (ml_sig = rl_act \<and> ml_sig \<noteq> 0) \<or> (ml_sig = strat_sig \<and> ml_sig \<noteq> 0)
        then ml_sig else 0)
     \<and> (fuse strat_sig (ml_signal ml_raw) rl_act sentiment = ml_signal ml_raw
          \<longleftrightarrow> (ml_signal ml_raw = rl_act \<and> ml_signal ml_raw \<noteq> 0)
             \<or> (ml_signal ml_raw = strat_sig \<and> ml_signal ml_raw \<noteq> 0))
     \<and> fuse (-1) 1 1 0 = 1
     \<and> (ml_sig \<noteq> 0 \<and> ml_sig \<noteq> rl_act \<and> ml_sig \<noteq> strat_sig
          \<longrightarrow> fuse strat_sig ml_sig rl_act sentiment = 0)"
  by (auto simp: fuse_def ml_signal_def)

theorem fuse_agreement_rule_witness:
  "(0::real) > -3/10 \<and> fuse (-1) (ml_signal 1) 1 0 = 1 \<and> fuse 1 (-1) 1 0 = 0"
  using fuse_agreement_rule [of 0 "-1" "ml_signal 1" 1 1]
    fuse_agreement_rule [of 0 1 "-1" 1 1]
  by (simp add: ml_signal_def)

text \<open>
  C2. Whatever the strategy signal, the ML signal and the RL action are, a sentiment score
  of at most \<open>-0.3\<close> gives the final signal 0: the iteration is either skipped or decides
  0, and no trade is opened.
\<close>

theorem sentiment_veto:
  "sentiment \<le> -3/10 \<Longrightarrow>
     fuse strat_sig ml_sig rl_act sentiment = 0
     \<and> signal_stage sentiment strat_sig ml_raw rl_act \<in> {Skipped, Decided 0}
     \<and> \<not> opens_trade (signal_stage sentiment strat_sig ml_raw rl_act) has_trade adj_size"
  by (simp add: fuse_def signal_stage_def opens_trade_def)

theorem sentiment_veto_witness:
  "(-1/2::real) \<le> -3/10 \<and> fuse 1 1 1 (-1/2) = 0
     \<and> signal_stage (-1/2) 1 1 1 = Skipped
     \<and> \<not> opens_trade (signal_stage (-1/2) 1 1 1) False 100
     \<and> fuse 1 1 1 (-3/10) = 0
     \<and> signal_stage (-3/10) 1 1 1 = Decided 0
     \<and> \<not> opens_trade (signal_stage (-3/10) 1 1 1) False 100"
  using sentiment_veto [of "-1/2" 1 1 1 1 False 100]
    sentiment_veto [of "-3/10" 1 1 1 1 False 100]
  by (simp add: signal_stage_def ml_signal_def fuse_def opens_trade_def)

section \<open>Properties of the risk gate\<close>

lemma round_half_even_bounds:
  "\<lfloor>y\<rfloor> \<le> round_half_even y \<and> round_half_even y \<le> \<lfloor>y\<rfloor> + 1"
  by (simp add: round_half_even_def Let_def)

lemma round_half_even_mono:
  assumes "x \<le> y"
  shows "round_half_even x \<le> round_half_even y"
proof (cases "\<lfloor>x\<rfloor> = \<lfloor>y\<rfloor>")
  case True
  then show ?thesis
    using assms by (auto simp: round_half_even_def Let_def)
next
  case False
  with assms have "\<lfloor>x\<rfloor> < \<lfloor>y\<rfloor>"
    by (simp add: floor_mono order.not_eq_order_implies_strict)
  then have "round_half_even x \<le> \<lfloor>y\<rfloor>"
    using round_half_even_bounds [of x] by linarith
  then show ?thesis
    using round_half_even_bounds [of y] by linarith
qed

lemma round2_mono: "x \<le> y \<Longrightarrow> round2 x \<le> round2 y"
  by (simp add: round2_def round_half_even_mono divide_right_mono)

text \<open>
  C8, as stated, fails: the size is not antitone in the ATR over all inputs. Across the
  guard a larger ATR gives a larger size (ATR 0 gives 0, ATR 1 gives 200), and with a
  negative risk fraction the size grows with the ATR.
\<close>

theorem position_size_not_antitone:
  "(0::real) \<le> 1
   \<and> position_size 10000 0 (2/100) = 0 \<and> position_size 10000 1 (2/100) = 200
   \<and> (1::real) \<le> 2
   \<and> position_size 10000 1 (-2/100) = -200 \<and> position_size 10000 2 (-2/100) = -100"
  by (simp add: position_size_def round2_def round_half_even_def Let_def)

text \<open>
  C8, amended. \<open>position_size\<close> returns 0 when the ATR or the equity is not positive, and
  otherwise (equity \<times> risk fraction) / ATR rounded to 2 decimals; \<open>position_size(10000, 0)\<close>
  and \<open>position_size(-5, 1)\<close> are 0; over positive ATR values and a non-negative risk
  fraction the size is antitone in the ATR.
\<close>

theorem position_size_contract:
  "(atr \<le> 0 \<or> equity \<le> 0 \<longrightarrow> position_size equity atr risk = 0)
   \<and> (\<not> (atr \<le> 0 \<or> equity \<le> 0) \<longrightarrow>
        position_size equity atr risk = round2 ((equity * risk) / atr))
   \<and> position_size 10000 0 risk = 0
   \<and> position_size (-5) 1 risk = 0
   \<and> (0 < atr \<and> atr \<le> atr' \<and> 0 \<le> risk \<longrightarrow>
        position_size equity atr' risk \<le> position_size equity atr risk)"
proof -
  have "position_size equity atr' risk \<le> position_size equity atr risk"
    if "0 < atr" "atr \<le> atr'" "0 \<le> risk"
  proof (cases "equity \<le> 0")
    case True
    then show ?thesis by (simp add: position_size_def)
  next
    case False
    with that have "equity * risk / atr' \<le> equity * risk / atr"
      by (intro divide_left_mono) (auto intro: mult_pos_pos)
    with False that show ?thesis
      by (simp add: position_size_def Let_def round2_mono)
  qed
  then show ?thesis
    by (simp add: position_size_def Let_def)
qed

theorem position_size_contract_witness:
  "position_size 10000 (7/10000) MAX_RISK_PER_TRADE = round2 (10000 * MAX_RISK_PER_TRADE / (7/10000))
   \<and> position_size 10000 (7/10000) MAX_RISK_PER_TRADE = 28571429/100
   \<and> position_size 10000 (1/1000) MAX_RISK_PER_TRADE = 200000
   \<and> position_size 10000 (1/1000) MAX_RISK_PER_TRADE
       \<le> position_size 10000 (7/10000) MAX_RISK_PER_TRADE"
  using position_size_contract [of "7/10000" 10000 MAX_RISK_PER_TRADE "1/1000"]
  by (simp add: MAX_RISK_PER_TRADE_def position_size_def round2_def round_half_even_def Let_def)

section \<open>Properties of the exit triggers\<close>

lemma sl_iff:
  "0 < entry_price trade \<Longrightarrow>
     sl trade exec_exit atr \<longleftrightarrow> exec_exit - entry_price trade \<le> - (2 * atr)"
  unfolding sl_def
  using divide_le_cancel [of "exec_exit - entry_price trade" "entry_price trade" "-2 * atr"]
  by simp

lemma tp_iff:
  "0 < entry_price trade \<Longrightarrow>
     tp trade exec_exit atr \<longleftrightarrow> exec_exit - entry_price trade \<ge> 2 * atr"
  unfolding tp_def
  using divide_le_cancel [of "2 * atr" "entry_price trade" "exec_exit - entry_price trade"]
  by simp

text \<open>
  The decision to close does not depend on the direction: for a positive entry price and a
  long or short position, the trade is closed exactly when the move is adverse or
  favourable by at least twice the ATR, or the hold time exceeds 120 minutes.
\<close>

lemma closes_trade_direction_relative:
  assumes "entry_price trade > 0" "signal trade = 1 \<or> signal trade = -1"
  shows "closes_trade trade exec_exit atr now \<longleftrightarrow>
           adverse_move trade exec_exit atr \<or> favourable_move trade exec_exit atr
           \<or> now - entry_time trade > 7200"
  using assms
  by (auto simp: closes_trade_def sl_iff tp_iff tte_def check_time_exit_def
      adverse_move_def favourable_move_def MAX_HOLD_TIME_MINUTES_def)

text \<open>
  C5. The flags \<open>sl\<close> and \<open>tp\<close> themselves are not relative to the direction. For a short
  position entered at 1.1000 with ATR 0.0010 and exit price 1.1030, one minute after the
  entry, the move is adverse by three times the ATR; the trade is closed, yet with the
  take-profit flag set and the stop-loss flag not set, and the loss of 5 at a drawdown of
  -0.0005 is shaped with the take-profit bonus into -5.501 instead of -5.001.
\<close>

theorem short_position_flags_swapped:
  "(let trade = \<lparr>entry_price = 11/10, entry_time = 0, trade_size = 1000, signal = -1\<rparr>;
        exec_exit = 1103/1000; atr = 1/1000
    in adverse_move trade exec_exit atr
       \<and> \<not> favourable_move trade exec_exit atr
       \<and> tp trade exec_exit atr
       \<and> \<not> sl trade exec_exit atr
       \<and> closes_trade trade exec_exit atr 60
       \<and> shaped (-5) (tp trade exec_exit atr) (-1/2000) = -5501/1000
       \<and> shaped (-5) (favourable_move trade exec_exit atr) (-1/2000) = -5001/1000)"
  by (simp add: adverse_move_def favourable_move_def tp_def sl_def closes_trade_def shaped_def
      DRAWDOWN_PENALTY_WEIGHT_def)

section \<open>Properties of state validation\<close>

lemma validate_state_Inr_iff: "(\<exists>k. validate_state s = Inr k) \<longleftrightarrow> valid_state s"
  by (cases s) (auto simp: validate_state_def valid_state_def)

lemma validate_state_Inl:
  "validate_state s = Inl e \<Longrightarrow> is_validation_error e \<and> \<not> valid_state s"
  by (cases s)
    (auto simp: validate_state_def valid_state_def is_validation_error_def split: if_splits)

lemma validate_state_cases:
  obtains (valid) k where "validate_state s = Inr k" "valid_state s"
  | (invalid) e where "validate_state s = Inl e" "is_validation_error e" "\<not> valid_state s"
proof (cases "validate_state s")
  case (Inl e)
  then show ?thesis using validate_state_Inl invalid by blast
next
  case (Inr k)
  then show ?thesis using validate_state_Inr_iff valid by blast
qed

lemma get_qs_valid:
  "validate_state s = Inr k \<Longrightarrow>
     get_qs ag s =
       (Returned (q_row ag k),
        if k \<in> dom (q_table ag) then ag
        else ag\<lparr>q_table := (q_table ag)(k \<mapsto> np_zeros (length (actions ag)))\<rparr>)"
  by (auto simp: get_qs_def q_row_def Let_def split: option.splits)

lemma choose_action_invalid:
  "validate_state s = Inl e \<Longrightarrow> choose_action ag s rand pick = (Raised e, ag)"
  by (simp add: choose_action_def)

lemma learn_invalid1:
  "validate_state s = Inl e \<Longrightarrow> learn ag s a r s2 = (Raised e, ag)"
  by (simp add: learn_def)

lemma learn_invalid2:
  "validate_state s = Inr k \<Longrightarrow> validate_state s2 = Inl e \<Longrightarrow>
     learn ag s a r s2 = (Raised e, ag)"
  by (simp add: learn_def)

lemma choose_action_valid_outcome:
  assumes "validate_state s = Inr k"
  shows "fst (choose_action ag s rand pick) = Raised e \<Longrightarrow> \<not> is_validation_error e"
  using assms
  by (auto simp: choose_action_def get_qs_valid is_validation_error_def
      split: option.splits if_splits)

lemma learn_valid_outcome:
  assumes "validate_state s = Inr k" "validate_state s2 = Inr k2"
  shows "fst (learn ag s a r s2) = Raised e \<Longrightarrow> \<not> is_validation_error e"
  using assms
  by (auto simp: learn_def get_qs_valid is_validation_error_def Let_def
      split: option.splits if_splits)

text \<open>
  C6, as stated, fails: the arity is not checked. A 2-tuple of ints passes validation,
  \<open>choose_action\<close> returns an action for it and \<open>learn\<close> accepts it (and the empty tuple).
\<close>

theorem two_tuple_accepted:
  "length [PInt 1, PInt 2] \<noteq> 5
   \<and> validate_state (PTuple [PInt 1, PInt 2]) = Inr [1, 2]
   \<and> fst (choose_action (QLearningAgent ACTIONS) (PTuple [PInt 1, PInt 2]) (9/10) 0)
       = Returned (-1)
   \<and> fst (learn (QLearningAgent ACTIONS) (PTuple [PInt 1, PInt 2]) 1 (1/2) (PTuple []))
       = Returned ()"
  by (simp add: validate_state_def choose_action_def learn_def get_qs_def QLearningAgent_def
      ACTIONS_def np_zeros_def np_argmax_def np_max_def Let_def EPSILON_START_def)

text \<open>
  C6, amended. \<open>choose_action(state)\<close> and \<open>learn(state, ...)\<close> raise a validation error
  for every argument that is not a tuple or has a component that is not an int instance
  (for \<open>learn\<close>, in the state or the next state); the error is the method's outcome and the
  agent is untouched. For every tuple of int instances, of any length, no validation error
  is raised.
\<close>

theorem validation_without_arity:
  "(\<not> valid_state s \<longrightarrow>
      (\<exists>e. is_validation_error e \<and> choose_action ag s rand pick = (Raised e, ag)
            \<and> learn ag s a r s2 = (Raised e, ag)))
   \<and> (valid_state s \<and> \<not> valid_state s2 \<longrightarrow>
      (\<exists>e. is_validation_error e \<and> learn ag s a r s2 = (Raised e, ag)))
   \<and> (valid_state s \<longrightarrow>
      (\<forall>e. fst (choose_action ag s rand pick) = Raised e \<longrightarrow> \<not> is_validation_error e))
   \<and> (valid_state s \<and> valid_state s2 \<longrightarrow>
      (\<forall>e. fst (learn ag s a r s2) = Raised e \<longrightarrow> \<not> is_validation_error e))
   \<and> (valid_state (PTuple xs) \<longleftrightarrow> list_all is_int_instance xs)"
proof (intro conjI impI allI)
  assume "\<not> valid_state s"
  then obtain e where "validate_state s = Inl e" "is_validation_error e"
    by (cases s rule: validate_state_cases) auto
  then show "\<exists>e. is_validation_error e \<and> choose_action ag s rand pick = (Raised e, ag)
            \<and> learn ag s a r s2 = (Raised e, ag)"
    using choose_action_invalid learn_invalid1 by blast
next
  assume "valid_state s \<and> \<not> valid_state s2"
  then obtain k e where
    "validate_state s = Inr k" "validate_state s2 = Inl e" "is_validation_error e"
    by (cases s rule: validate_state_cases; cases s2 rule: validate_state_cases) auto
  then show "\<exists>e. is_validation_error e \<and> learn ag s a r s2 = (Raised e, ag)"
    using learn_invalid2 by blast
next
  fix e assume "valid_state s" "fst (choose_action ag s rand pick) = Raised e"
  then show "\<not> is_validation_error e"
    using choose_action_valid_outcome validate_state_Inr_iff by blast
next
  fix e assume "valid_state s \<and> valid_state s2" "fst (learn ag s a r s2) = Raised e"
  then show "\<not> is_validation_error e"
    using learn_valid_outcome validate_state_Inr_iff by metis
next
  show "valid_state (PTuple xs) = list_all is_int_instance xs"
    by (simp add: valid_state_def)
qed

theorem validation_without_arity_witness:
  "\<not> valid_state (PList [PInt 1])
   \<and> choose_action (QLearningAgent ACTIONS) (PList [PInt 1]) (9/10) 0
       = (Raised ValueError_state_not_tuple, QLearningAgent ACTIONS)
   \<and> valid_state (PTuple [PInt 0, PInt 1, PInt 0, PInt 0, PInt 2])
   \<and> \<not> valid_state (PTuple [PInt 0, PFloat 1, PInt 0, PInt 0, PInt 2])
   \<and> learn (QLearningAgent ACTIONS) (PTuple [PInt 0, PInt 1, PInt 0, PInt 0, PInt 2]) 1 (1/2)
         (PTuple [PInt 0, PFloat 1, PInt 0, PInt 0, PInt 2])
       = (Raised ValueError_element_not_int, QLearningAgent ACTIONS)
   \<and> fst (learn (QLearningAgent ACTIONS) (PTuple [PInt 0, PInt 1, PInt 0, PInt 0, PInt 2]) 1
         (1/2) (PTuple [PInt 0, PInt 1, PInt 0, PInt 0, PInt 2]))
       = Returned ()"
  using
    validation_without_arity [of "PList [PInt 1]" "QLearningAgent ACTIONS" "9/10" 0 1 "1/2"
      "PList [PInt 1]" "[]"]
    validation_without_arity [of "PTuple [PInt 0, PInt 1, PInt 0, PInt 0, PInt 2]"
      "QLearningAgent ACTIONS" "9/10" 0 1 "1/2"
      "PTuple [PInt 0, PFloat 1, PInt 0, PInt 0, PInt 2]" "[]"]
  by (simp add: valid_state_def validate_state_def choose_action_def learn_def get_qs_def
      QLearningAgent_def ACTIONS_def np_zeros_def np_max_def Let_def)

section \<open>Properties of action selection\<close>

text \<open>
  C10. \<open>choose_action\<close> changes no hyperparameter and no value row that exists. When it
  explores it leaves the agent as it is; otherwise the agent is unchanged or differs by one
  fresh all-zero row, for the validated state that had none.
\<close>

theorem choose_action_frame:
  "(let ag' = snd (choose_action ag s rand pick)
    in actions ag' = actions ag \<and> alpha ag' = alpha ag \<and> gamma ag' = gamma ag
       \<and> epsilon ag' = epsilon ag \<and> epsilon_min ag' = epsilon_min ag
       \<and> epsilon_decay ag' = epsilon_decay ag
       \<and> (\<forall>k row. q_table ag k = Some row \<longrightarrow> q_table ag' k = Some row)
       \<and> (rand < epsilon ag \<longrightarrow> ag' = ag)
       \<and> (ag' = ag
           \<or> (\<exists>k. validate_state s = Inr k \<and> \<not> rand < epsilon ag \<and> q_table ag k = None
                 \<and> ag' = ag\<lparr>q_table := (q_table ag)(k \<mapsto> np_zeros (length (actions ag)))\<rparr>)))"
proof (cases s rule: validate_state_cases)
  case (valid k)
  then show ?thesis
    by (auto simp: choose_action_def get_qs_valid Let_def split: option.splits)
next
  case (invalid e)
  then show ?thesis
    by (simp add: choose_action_def)
qed

theorem choose_action_frame_witness:
  "(let ag = QLearningAgent ACTIONS; s = PTuple [PInt 0, PInt 1, PInt 0, PInt 0, PInt 1]
    in snd (choose_action ag s (1/10) 2) = ag
       \<and> q_table (snd (choose_action ag s (9/10) 2)) = [[0, 1, 0, 0, 1] \<mapsto> [0, 0, 0]])"
  using
    choose_action_frame [of "QLearningAgent ACTIONS"
      "PTuple [PInt 0, PInt 1, PInt 0, PInt 0, PInt 1]" "1/10" 2]
    choose_action_frame [of "QLearningAgent ACTIONS"
      "PTuple [PInt 0, PInt 1, PInt 0, PInt 0, PInt 1]" "9/10" 2]
  by (simp add: Let_def QLearningAgent_def EPSILON_START_def validate_state_def ACTIONS_def
      np_zeros_def choose_action_def get_qs_def np_argmax_def random_choice_def)

section \<open>Properties of learning\<close>

lemmas eval_defs = QLearningAgent_def ACTIONS_def ALPHA_def GAMMA_def EPSILON_START_def
  EPSILON_MIN_def EPSILON_DECAY_def validate_state_def choose_action_def learn_def get_qs_def
  np_zeros_def np_max_def np_argmax_def random_choice_def q_row_def q_value_def Let_def

lemma index_of_Some: "index_of xs x = Some i \<Longrightarrow> i < length xs \<and> xs ! i = x"
  by (induction xs arbitrary: i) (auto split: if_splits)

lemma index_of_mem: "x \<in> set xs \<Longrightarrow> \<exists>i. index_of xs x = Some i"
  by (induction xs) auto

lemma q_row_length: "rows_ok ag \<Longrightarrow> length (q_row ag k) = length (actions ag)"
  by (auto simp: rows_ok_def q_row_def np_zeros_def ran_def split: option.splits)

lemma learn_returns:
  assumes "validate_state s = Inr k" "validate_state s2 = Inr k2"
    "index_of (actions ag) a = Some i" "rows_ok ag"
  shows "\<exists>T. learn ag s a r s2 = (Returned (), ag\<lparr>q_table := T, epsilon := decayed ag\<rparr>)
     \<and> T k = Some ((q_row ag k)[i := q_row ag k ! i
            + alpha ag * (r + gamma ag * Max (set (q_row ag k2)) - q_row ag k ! i)])
     \<and> (k2 \<noteq> k \<longrightarrow> T k2 = Some (q_row ag k2))
     \<and> (\<forall>k3. k3 \<noteq> k \<and> k3 \<noteq> k2 \<longrightarrow> T k3 = q_table ag k3)"
proof -
  have i: "i < length (actions ag)"
    using assms(3) index_of_Some by fastforce
  have len: "length (q_row ag k) = length (actions ag)" "length (q_row ag k2) = length (actions ag)"
    using assms(4) q_row_length by auto
  have ne: "q_row ag k2 \<noteq> []"
    using len i by auto
  define ag1 where "ag1 = (if k \<in> dom (q_table ag) then ag
        else ag\<lparr>q_table := (q_table ag)(k \<mapsto> np_zeros (length (actions ag)))\<rparr>)"
  have g1: "get_qs ag s = (Returned (q_row ag k), ag1)"
    using assms(1) by (simp add: get_qs_valid ag1_def)
  have a1: "actions ag1 = actions ag" "alpha ag1 = alpha ag" "gamma ag1 = gamma ag"
    "epsilon ag1 = epsilon ag" "epsilon_min ag1 = epsilon_min ag" "epsilon_decay ag1 = epsilon_decay ag"
    by (auto simp: ag1_def)
  have t1: "q_table ag1 k = Some (q_row ag k)" "\<And>k3. k3 \<noteq> k \<Longrightarrow> q_table ag1 k3 = q_table ag k3"
    by (auto simp: ag1_def q_row_def split: option.splits)
  have r1: "q_row ag1 k2 = q_row ag k2"
    by (cases "k2 = k") (auto simp: q_row_def t1 a1 split: option.splits)
  define ag2 where "ag2 = (if k2 \<in> dom (q_table ag1) then ag1
        else ag1\<lparr>q_table := (q_table ag1)(k2 \<mapsto> np_zeros (length (actions ag1)))\<rparr>)"
  have g2: "get_qs ag1 s2 = (Returned (q_row ag k2), ag2)"
    using assms(2) by (simp add: get_qs_valid ag2_def r1)
  have a2: "actions ag2 = actions ag" "alpha ag2 = alpha ag" "gamma ag2 = gamma ag"
    "epsilon ag2 = epsilon ag" "epsilon_min ag2 = epsilon_min ag" "epsilon_decay ag2 = epsilon_decay ag"
    by (auto simp: ag2_def a1)
  have t2: "q_table ag2 k = Some (q_row ag k)"
    "k2 \<noteq> k \<Longrightarrow> q_table ag2 k2 = Some (q_row ag k2)"
    "\<And>k3. k3 \<noteq> k \<Longrightarrow> k3 \<noteq> k2 \<Longrightarrow> q_table ag2 k3 = q_table ag k3"
    using t1 r1 by (auto simp: ag2_def q_row_def split: option.splits)
  have eq2: "ag2 = ag\<lparr>q_table := q_table ag2\<rparr>"
    by (auto simp: ag2_def ag1_def)
  let ?row = "(q_row ag k)[i := q_row ag k ! i
            + alpha ag * (r + gamma ag * Max (set (q_row ag k2)) - q_row ag k ! i)]"
  let ?T = "(q_table ag2)(k \<mapsto> ?row)"
  have "learn ag s a r s2 = (Returned (), ag2\<lparr>q_table := ?T, epsilon := decayed ag\<rparr>)"
    using assms(1-3) i len ne
    by (simp add: learn_def g1 g2 np_max_def t2 a2 Let_def decayed_def)
  also have "ag2\<lparr>q_table := ?T, epsilon := decayed ag\<rparr> = ag\<lparr>q_table := ?T, epsilon := decayed ag\<rparr>"
    by (subst eq2) simp
  finally have "learn ag s a r s2 = (Returned (), ag\<lparr>q_table := ?T, epsilon := decayed ag\<rparr>)" .
  moreover have "?T k = Some ?row" by simp
  moreover have "k2 \<noteq> k \<longrightarrow> ?T k2 = Some (q_row ag k2)" using t2 by simp
  moreover have "\<forall>k3. k3 \<noteq> k \<and> k3 \<noteq> k2 \<longrightarrow> ?T k3 = q_table ag k3" using t2 by simp
  ultimately show ?thesis by blast
qed

lemma get_qs_hyper:
  "get_qs ag s = (out, ag') \<Longrightarrow>
     actions ag' = actions ag \<and> alpha ag' = alpha ag \<and> gamma ag' = gamma ag
     \<and> epsilon ag' = epsilon ag \<and> epsilon_min ag' = epsilon_min ag
     \<and> epsilon_decay ag' = epsilon_decay ag"
  by (auto simp: get_qs_def Let_def split: sum.splits option.splits)

lemma learn_hyper:
  "learn ag s a r s2 = (out, ag') \<Longrightarrow>
     actions ag' = actions ag \<and> alpha ag' = alpha ag \<and> gamma ag' = gamma ag
     \<and> epsilon_min ag' = epsilon_min ag \<and> epsilon_decay ag' = epsilon_decay ag
     \<and> (epsilon ag' = epsilon ag \<or> epsilon ag' = decayed ag)"
  unfolding learn_def
  by (auto simp: Let_def decayed_def
      split: sum.splits option.splits prod.splits outcome.splits if_splits
      dest!: get_qs_hyper)

lemma choose_action_hyper:
  "choose_action ag s rand pick = (out, ag') \<Longrightarrow>
     epsilon_min ag' = epsilon_min ag \<and> epsilon_decay ag' = epsilon_decay ag
     \<and> epsilon ag' = epsilon ag"
  unfolding choose_action_def
  by (auto simp: Let_def
      split: sum.splits option.splits prod.splits outcome.splits if_splits
      dest!: get_qs_hyper)

lemma decayed_bounds:
  assumes "epsilon_min ag \<le> epsilon ag" "0 \<le> epsilon_min ag" "epsilon_decay ag < 1"
  shows "epsilon_min ag \<le> decayed ag \<and> decayed ag \<le> epsilon ag"
proof -
  have "epsilon ag * epsilon_decay ag \<le> epsilon ag"
    using assms by (intro mult_left_le) auto
  then show ?thesis
    using assms by (auto simp: decayed_def)
qed

lemma decayed_eq_max:
  assumes "epsilon_min ag \<le> epsilon ag" "0 \<le> epsilon_min ag" "epsilon_decay ag \<le> 1"
  shows "decayed ag = max (epsilon ag * epsilon_decay ag) (epsilon_min ag)"
proof (cases "epsilon ag > epsilon_min ag")
  case True
  then show ?thesis by (simp add: decayed_def)
next
  case False
  with assms have eq: "epsilon ag = epsilon_min ag" by simp
  have "epsilon_min ag * epsilon_decay ag \<le> epsilon_min ag"
    using assms by (intro mult_left_le) auto
  with eq show ?thesis by (simp add: decayed_def)
qed

lemma apply_call_epsilon:
  assumes "epsilon_min ag \<le> epsilon ag" "0 \<le> epsilon_min ag" "epsilon_decay ag < 1"
  shows "epsilon_min (apply_call ag c) = epsilon_min ag
     \<and> epsilon_decay (apply_call ag c) = epsilon_decay ag
     \<and> epsilon_min ag \<le> epsilon (apply_call ag c)
     \<and> epsilon (apply_call ag c) \<le> epsilon ag"
proof (cases c)
  case (ChooseAction s rand pick)
  then show ?thesis
    using choose_action_hyper [of ag s rand pick] assms
    by (cases "choose_action ag s rand pick") auto
next
  case (Learn s a r s2)
  then show ?thesis
    using learn_hyper [of ag s a r s2] decayed_bounds [OF assms] assms
    by (cases "learn ag s a r s2") auto
qed

lemma run_calls_bounds:
  assumes "epsilon_min ag \<le> epsilon ag" "0 \<le> epsilon_min ag" "epsilon_decay ag < 1"
  shows "\<forall>ag' \<in> set (run_calls ag cs).
           epsilon_min ag \<le> epsilon ag' \<and> epsilon ag' \<le> epsilon ag"
  using assms
proof (induction cs arbitrary: ag)
  case Nil
  then show ?case by simp
next
  case (Cons c cs)
  let ?ag1 = "apply_call ag c"
  have step: "epsilon_min ?ag1 = epsilon_min ag" "epsilon_decay ?ag1 = epsilon_decay ag"
    "epsilon_min ag \<le> epsilon ?ag1" "epsilon ?ag1 \<le> epsilon ag"
    using apply_call_epsilon [OF Cons.prems] by auto
  then have "\<forall>ag' \<in> set (run_calls ?ag1 cs).
           epsilon_min ?ag1 \<le> epsilon ag' \<and> epsilon ag' \<le> epsilon ?ag1"
    using Cons.prems by (intro Cons.IH) auto
  with step Cons.prems show ?case by auto
qed

lemma run_calls_sorted:
  assumes "epsilon_min ag \<le> epsilon ag" "0 \<le> epsilon_min ag" "epsilon_decay ag < 1"
  shows "sorted_wrt (\<ge>) (map epsilon (run_calls ag cs))"
  using assms
proof (induction cs arbitrary: ag)
  case Nil
  then show ?case by simp
next
  case (Cons c cs)
  let ?ag1 = "apply_call ag c"
  have step: "epsilon_min ?ag1 = epsilon_min ag" "epsilon_decay ?ag1 = epsilon_decay ag"
    "epsilon_min ag \<le> epsilon ?ag1" "epsilon ?ag1 \<le> epsilon ag"
    using apply_call_epsilon [OF Cons.prems] by auto
  then have pre: "epsilon_min ?ag1 \<le> epsilon ?ag1" "0 \<le> epsilon_min ?ag1" "epsilon_decay ?ag1 < 1"
    using Cons.prems by auto
  have "\<forall>ag' \<in> set (run_calls ?ag1 cs). epsilon ag' \<le> epsilon ag"
    using run_calls_bounds [OF pre, of cs] step by fastforce
  moreover have "sorted_wrt (\<ge>) (map epsilon (run_calls ?ag1 cs))"
    using pre by (rule Cons.IH)
  ultimately show ?case by auto
qed

text \<open>
  C3. For valid states \<open>s\<close> and \<open>s'\<close>, an action in \<open>{-1, 0, 1}\<close> and any reward, on an
  agent whose invariants hold (the default actions, value rows of full length, an
  exploration rate not below its non-negative floor, a decay rate of at most 1), \<open>learn\<close>
  returns, the new value of \<open>(s, a)\<close> is the old one plus \<open>\<alpha>\<close> times the difference between
  the target \<open>r + \<gamma> \<times> max Q(s', \<cdot>)\<close> and the old one, an absent state being read as the
  all-zero row, and the exploration rate becomes \<open>max(\<epsilon> \<times> decay, \<epsilon>_min)\<close>.
\<close>

theorem learn_td_update:
  assumes "valid_state s" "valid_state s2" "a \<in> {-1, 0, 1}"
    "actions ag = ACTIONS" "rows_ok ag"
    "epsilon_min ag \<le> epsilon ag" "0 \<le> epsilon_min ag" "epsilon_decay ag \<le> 1"
  shows "\<exists>k k2 ag'. validate_state s = Inr k \<and> validate_state s2 = Inr k2
     \<and> learn ag s a r s2 = (Returned (), ag')
     \<and> q_value ag' k a =
         q_value ag k a
         + alpha ag * ((r + gamma ag * Max (set (q_row ag k2))) - q_value ag k a)
     \<and> epsilon ag' = max (epsilon ag * epsilon_decay ag) (epsilon_min ag)"
proof -
  obtain k k2 where k: "validate_state s = Inr k" "validate_state s2 = Inr k2"
    using assms(1,2) validate_state_Inr_iff by blast
  obtain i where i: "index_of (actions ag) a = Some i"
    using assms(3,4) index_of_mem [of a "actions ag"] by (auto simp: ACTIONS_def)
  then have il: "i < length (q_row ag k)"
    using index_of_Some [OF i] q_row_length [OF assms(5)] by simp
  obtain T where T: "learn ag s a r s2 = (Returned (), ag\<lparr>q_table := T, epsilon := decayed ag\<rparr>)"
    "T k = Some ((q_row ag k)[i := q_row ag k ! i
            + alpha ag * (r + gamma ag * Max (set (q_row ag k2)) - q_row ag k ! i)])"
    using learn_returns [OF k i assms(5)] by blast
  let ?ag' = "ag\<lparr>q_table := T, epsilon := decayed ag\<rparr>"
  have "q_value ?ag' k a = q_value ag k a
         + alpha ag * ((r + gamma ag * Max (set (q_row ag k2))) - q_value ag k a)"
    using i il T(2) by (simp add: q_value_def q_row_def)
  moreover have "epsilon ?ag' = max (epsilon ag * epsilon_decay ag) (epsilon_min ag)"
    using decayed_eq_max [OF assms(6-8)] by simp
  ultimately show ?thesis
    using k T(1) by blast
qed


theorem learn_td_update_witness:
  "(let ag = snd (learn (QLearningAgent ACTIONS) (PTuple [PInt 1, PInt 1, PInt 0, PInt 0, PInt 1])
                   1 1 (PTuple [PInt 1, PInt 1, PInt 0, PInt 0, PInt 1]));
        s = PTuple [PInt 0, PInt 1, PInt 0, PInt 0, PInt 1];
        s2 = PTuple [PInt 1, PInt 1, PInt 0, PInt 0, PInt 1];
        ag' = snd (learn ag s (-1) (1/2) s2)
    in valid_state s \<and> valid_state s2 \<and> actions ag = ACTIONS \<and> rows_ok ag
       \<and> q_table ag = [[1, 1, 0, 0, 1] \<mapsto> [0, 0, 1/10]]
       \<and> q_table ag' = [[1, 1, 0, 0, 1] \<mapsto> [0, 0, 1/10], [0, 1, 0, 0, 1] \<mapsto> [119/2000, 0, 0]]
       \<and> q_value ag' [0, 1, 0, 0, 1] (-1) = 0 + 1/10 * ((1/2 + 95/100 * (1/10)) - 0)
       \<and> epsilon ag = 199/400 \<and> epsilon ag' = 199/400 * (995/1000))"
  using learn_td_update [of "PTuple [PInt 0, PInt 1, PInt 0, PInt 0, PInt 1]"
      "PTuple [PInt 1, PInt 1, PInt 0, PInt 0, PInt 1]" "-1"
      "snd (learn (QLearningAgent ACTIONS) (PTuple [PInt 1, PInt 1, PInt 0, PInt 0, PInt 1])
                   1 1 (PTuple [PInt 1, PInt 1, PInt 0, PInt 0, PInt 1]))" "1/2"]
  by (simp add: eval_defs valid_state_def rows_ok_def)

text \<open>
  C4. From an exploration rate not below its floor, with a non-negative floor and a decay
  rate in \<open>(0, 1)\<close>, over every sequence of \<open>choose_action\<close> and \<open>learn\<close> calls: the
  rate never increases, never drops below the floor, changes only across a \<open>learn\<close> call,
  and \<open>choose_action\<close> never modifies it.
\<close>

theorem epsilon_decays_only_in_learn:
  assumes "epsilon_min ag \<le> epsilon ag" "0 \<le> epsilon_min ag"
    "0 < epsilon_decay ag" "epsilon_decay ag < 1"
  shows "sorted_wrt (\<ge>) (map epsilon (run_calls ag cs))
     \<and> (\<forall>ag' \<in> set (run_calls ag cs). epsilon_min ag \<le> epsilon ag')
     \<and> (\<forall>i < length cs. epsilon (run_calls ag cs ! Suc i) \<noteq> epsilon (run_calls ag cs ! i)
           \<longrightarrow> (\<exists>s a r s2. cs ! i = Learn s a r s2))
     \<and> (\<forall>ag0 s rand pick. epsilon (snd (choose_action ag0 s rand pick)) = epsilon ag0)"
proof (intro conjI)
  show "sorted_wrt (\<ge>) (map epsilon (run_calls ag cs))"
    using assms by (intro run_calls_sorted) auto
  show "\<forall>ag' \<in> set (run_calls ag cs). epsilon_min ag \<le> epsilon ag'"
    using run_calls_bounds [of ag cs] assms by auto
  show ch: "\<forall>ag0 s rand pick. epsilon (snd (choose_action ag0 s rand pick)) = epsilon ag0"
    using choose_action_hyper by (metis prod.collapse)
  have "i < length cs \<Longrightarrow> epsilon (run_calls ag0 cs ! Suc i) \<noteq> epsilon (run_calls ag0 cs ! i)
           \<Longrightarrow> \<exists>s a r s2. cs ! i = Learn s a r s2" for i ag0
  proof (induction cs arbitrary: i ag0)
    case Nil
    then show ?case by simp
  next
    case (Cons c cs)
    have hd: "run_calls ag1 cs ! 0 = ag1" for ag1
      by (cases cs) auto
    show ?case
    proof (cases i)
      case 0
      with Cons.prems hd have "epsilon (apply_call ag0 c) \<noteq> epsilon ag0" by simp
      with ch 0 show ?thesis by (cases c) auto
    next
      case (Suc j)
      with Cons show ?thesis by auto
    qed
  qed
  then show "\<forall>i < length cs. epsilon (run_calls ag cs ! Suc i) \<noteq> epsilon (run_calls ag cs ! i)
           \<longrightarrow> (\<exists>s a r s2. cs ! i = Learn s a r s2)"
    by blast
qed

theorem epsilon_decays_only_in_learn_witness:
  "(let ag = QLearningAgent ACTIONS; s = PTuple [PInt 0, PInt 1, PInt 0, PInt 0, PInt 1];
        cs = [ChooseAction s (9/10) 0, Learn s 1 (1/2) s, ChooseAction s (1/10) 2]
    in epsilon_min ag \<le> epsilon ag \<and> 0 \<le> epsilon_min ag
       \<and> 0 < epsilon_decay ag \<and> epsilon_decay ag < 1
       \<and> map epsilon (run_calls ag cs) = [1/2, 1/2, 199/400, 199/400]
       \<and> sorted_wrt (\<ge>) (map epsilon (run_calls ag cs)))"
  using epsilon_decays_only_in_learn [of "QLearningAgent ACTIONS"
      "[ChooseAction (PTuple [PInt 0, PInt 1, PInt 0, PInt 0, PInt 1]) (9/10) 0,
        Learn (PTuple [PInt 0, PInt 1, PInt 0, PInt 0, PInt 1]) 1 (1/2)
          (PTuple [PInt 0, PInt 1, PInt 0, PInt 0, PInt 1]),
        ChooseAction (PTuple [PInt 0, PInt 1, PInt 0, PInt 0, PInt 1]) (1/10) 2]"]
  by (simp add: eval_defs)

section \<open>Properties of the discretization\<close>

lemma digitize_bin3: "lo \<le> hi \<Longrightarrow> int (digitize x [lo, hi]) = bin3 lo hi x"
  by (cases x) (auto simp: digitize_def bin3_def)

lemma bin3_range: "bin3 lo hi x \<in> {0, 1, 2}"
  by (cases x) (auto simp: bin3_def)

lemma cross_value_eq:
  "cross_value c = (if c = Fin (-1) then -1 else if c = Fin 1 then 1 else 0)"
proof -
  have "\<lceil>- 1 :: real\<rceil> = - 1"
    using ceiling_of_int [of "- 1", where ?'a = real] by simp
  then show ?thesis
    by (cases c) (auto simp: cross_value_def py_int_def)
qed

text \<open>
  C7. \<open>discretize_state\<close> is total: for all readings, NaN and the infinities included, it
  returns a 5-tuple of ints. The price-change bucket is in \<open>{-1, 0, 1}\<close>, binned at -0.001
  and 0.001; the RSI bucket is in \<open>{0, 1, 2}\<close>, binned at 30 and 70; the volatility bucket
  is in \<open>{0, 1, 2}\<close>, binned at 0.0005 and 0.0015; the two crosses are passed through when
  they are -1, 0 or 1 and are 0 otherwise. The result is a state the agent accepts.
\<close>

theorem discretize_state_total:
  "\<exists>pc rsi_b ema macd vol.
     discretize_state price_change_pct rsi ema_cross macd_cross volatility
       = PTuple [PInt pc, PInt rsi_b, PInt ema, PInt macd, PInt vol]
     \<and> pc \<in> {-1, 0, 1} \<and> rsi_b \<in> {0, 1, 2} \<and> vol \<in> {0, 1, 2}
     \<and> ema \<in> {-1, 0, 1} \<and> macd \<in> {-1, 0, 1}
     \<and> pc = bin3 (-1/1000) (1/1000) price_change_pct - 1
     \<and> rsi_b = bin3 30 70 rsi
     \<and> vol = bin3 (5/10000) (15/10000) volatility
     \<and> ema = (if ema_cross = Fin (-1) then -1 else if ema_cross = Fin 1 then 1 else 0)
     \<and> macd = (if macd_cross = Fin (-1) then -1 else if macd_cross = Fin 1 then 1 else 0)
     \<and> valid_state (discretize_state price_change_pct rsi ema_cross macd_cross volatility)"
proof -
  have pc: "bin3 (-1/1000) (1/1000) price_change_pct - 1 \<in> {-1, 0, 1}"
    using bin3_range [of "-1/1000" "1/1000" price_change_pct] by auto
  show ?thesis
    unfolding discretize_state_def Let_def
    using pc bin3_range [of 30 70 rsi] bin3_range [of "5/10000" "15/10000" volatility]
    by (simp add: digitize_bin3 cross_value_eq valid_state_def)
qed

theorem discretize_state_total_witness:
  "discretize_state NaN NaN NaN NaN NaN = PTuple [PInt 1, PInt 2, PInt 0, PInt 0, PInt 2]
   \<and> discretize_state (Fin (-1/1000)) (Fin 30) (Fin 1) (Fin 2) (Fin (15/10000))
       = PTuple [PInt 0, PInt 1, PInt 1, PInt 0, PInt 2]
   \<and> discretize_state NegInf PosInf (Fin (-1)) PosInf (Fin (4/10000))
       = PTuple [PInt (-1), PInt 2, PInt (-1), PInt 0, PInt 0]"
  using discretize_state_total [of NaN NaN NaN NaN NaN]
    discretize_state_total [of "Fin (-1/1000)" "Fin 30" "Fin 1" "Fin 2" "Fin (15/10000)"]
    discretize_state_total [of NegInf PosInf "Fin (-1)" PosInf "Fin (4/10000)"]
  by (auto simp: bin3_def)

section \<open>Repeating one learning step\<close>

lemma rows_ok_iff:
  "rows_ok ag \<longleftrightarrow> (\<forall>k row. q_table ag k = Some row \<longrightarrow> length row = length (actions ag))"
  by (auto simp: rows_ok_def ran_def)

lemma learn_step:
  assumes "validate_state s = Inr k" "validate_state s2 = Inr k2"
    "index_of (actions ag) a = Some i" "rows_ok ag"
  shows "actions (snd (learn ag s a r s2)) = actions ag
     \<and> alpha (snd (learn ag s a r s2)) = alpha ag
     \<and> gamma (snd (learn ag s a r s2)) = gamma ag
     \<and> rows_ok (snd (learn ag s a r s2))
     \<and> q_row (snd (learn ag s a r s2)) k = (q_row ag k)[i := q_row ag k ! i
            + alpha ag * (r + gamma ag * Max (set (q_row ag k2)) - q_row ag k ! i)]
     \<and> (k2 \<noteq> k \<longrightarrow> q_row (snd (learn ag s a r s2)) k2 = q_row ag k2)"
proof -
  let ?row = "(q_row ag k)[i := q_row ag k ! i
            + alpha ag * (r + gamma ag * Max (set (q_row ag k2)) - q_row ag k ! i)]"
  obtain T where T: "learn ag s a r s2 = (Returned (), ag\<lparr>q_table := T, epsilon := decayed ag\<rparr>)"
    "T k = Some ?row" "k2 \<noteq> k \<longrightarrow> T k2 = Some (q_row ag k2)"
    "\<forall>k3. k3 \<noteq> k \<and> k3 \<noteq> k2 \<longrightarrow> T k3 = q_table ag k3"
    using learn_returns [OF assms] by blast
  have len: "length (q_row ag k) = length (actions ag)" "length (q_row ag k2) = length (actions ag)"
    using assms(4) q_row_length by auto
  have "length row = length (actions ag)" if "T k3 = Some row" for k3 row
  proof (cases "k3 = k")
    case True
    with that T(2) len show ?thesis by auto
  next
    case False
    show ?thesis
    proof (cases "k3 = k2")
      case True
      with False that T(3) len show ?thesis by auto
    next
      case no: False
      with False that T(4) have "q_table ag k3 = Some row" by auto
      with assms(4) show ?thesis by (auto simp: rows_ok_iff)
    qed
  qed
  then have "rows_ok (ag\<lparr>q_table := T, epsilon := decayed ag\<rparr>)"
    by (simp add: rows_ok_iff)
  with T show ?thesis
    by (simp add: q_row_def)
qed

lemma learn_times_other_state:
  assumes "validate_state s = Inr k" "validate_state s2 = Inr k2" "k2 \<noteq> k"
    "index_of (actions ag) a = Some i" "rows_ok ag"
  shows "actions (learn_times n ag s a r s2) = actions ag
     \<and> alpha (learn_times n ag s a r s2) = alpha ag
     \<and> gamma (learn_times n ag s a r s2) = gamma ag
     \<and> rows_ok (learn_times n ag s a r s2)
     \<and> q_row (learn_times n ag s a r s2) k2 = q_row ag k2
     \<and> q_row (learn_times n ag s a r s2) k ! i =
         (r + gamma ag * Max (set (q_row ag k2)))
         + (1 - alpha ag) ^ n * (q_row ag k ! i - (r + gamma ag * Max (set (q_row ag k2))))"
  using assms(4,5)
proof (induction n arbitrary: ag)
  case 0
  then show ?case by simp
next
  case (Suc n)
  let ?ag1 = "snd (learn ag s a r s2)"
  let ?T = "r + gamma ag * Max (set (q_row ag k2))"
  have il: "i < length (q_row ag k)"
    using index_of_Some [OF Suc.prems(1)] q_row_length [OF Suc.prems(2)] by simp
  have st: "actions ?ag1 = actions ag" "alpha ?ag1 = alpha ag" "gamma ?ag1 = gamma ag"
    "rows_ok ?ag1" "q_row ?ag1 k2 = q_row ag k2"
    "q_row ?ag1 k = (q_row ag k)[i := q_row ag k ! i + alpha ag * (?T - q_row ag k ! i)]"
    using learn_step [OF assms(1,2) Suc.prems, of r] assms(3) by auto
  have q1: "q_row ?ag1 k ! i = q_row ag k ! i + alpha ag * (?T - q_row ag k ! i)"
    using st(6) il by simp
  have ih: "actions (learn_times n ?ag1 s a r s2) = actions ?ag1
     \<and> alpha (learn_times n ?ag1 s a r s2) = alpha ?ag1
     \<and> gamma (learn_times n ?ag1 s a r s2) = gamma ?ag1
     \<and> rows_ok (learn_times n ?ag1 s a r s2)
     \<and> q_row (learn_times n ?ag1 s a r s2) k2 = q_row ?ag1 k2
     \<and> q_row (learn_times n ?ag1 s a r s2) k ! i =
         (r + gamma ?ag1 * Max (set (q_row ?ag1 k2)))
         + (1 - alpha ?ag1) ^ n * (q_row ?ag1 k ! i - (r + gamma ?ag1 * Max (set (q_row ?ag1 k2))))"
    using Suc.prems st by (intro Suc.IH) auto
  have "q_row (learn_times n ?ag1 s a r s2) k ! i =
      ?T + (1 - alpha ag) ^ n * (q_row ag k ! i + alpha ag * (?T - q_row ag k ! i) - ?T)"
    using ih st q1 by simp
  also have "\<dots> = ?T + (1 - alpha ag) ^ Suc n * (q_row ag k ! i - ?T)"
    by (simp add: algebra_simps)
  finally show ?case
    using ih st by simp
qed

lemma Max_list_update:
  assumes "i < length row" "Max (set row) = row ! i" "row ! i \<le> v"
  shows "Max (set (row[i := v])) = v"
proof (rule Max_eqI)
  show "finite (set (row[i := v]))" by simp
  show "v \<in> set (row[i := v])"
    using assms(1) by (simp add: set_update_memI)
  fix y assume "y \<in> set (row[i := v])"
  then have "y = v \<or> y \<in> set row"
    using set_update_subset_insert [of row i v] by auto
  moreover have "y \<le> row ! i" if "y \<in> set row"
    using that assms(2) Max_ge [of "set row" y] by simp
  ultimately show "y \<le> v"
    using assms(3) by auto
qed

lemma td_self_loop_step:
  fixes q al g r :: real
  assumes "g \<noteq> 1"
  shows "q + al * (r + g * q - q) - r / (1 - g) = (1 - al * (1 - g)) * (q - r / (1 - g))"
proof -
  define F where "F = r / (1 - g)"
  have r: "r = F * (1 - g)"
    using assms by (simp add: F_def)
  have "q + al * (F * (1 - g) + g * q - q) - F = (1 - al * (1 - g)) * (q - F)"
    by (simp add: algebra_simps)
  then have "q + al * (r + g * q - q) - F = (1 - al * (1 - g)) * (q - F)"
    by (simp only: r [symmetric])
  then show ?thesis
    by (simp only: F_def)
qed

lemma learn_times_same_state:
  assumes "validate_state s = Inr k" "validate_state s2 = Inr k" "0 < alpha ag" "alpha ag < 1" "0 < gamma ag" "gamma ag < 1"
    "index_of (actions ag) a = Some i" "rows_ok ag"
    "Max (set (q_row ag k)) = q_row ag k ! i" "q_row ag k ! i \<le> r / (1 - gamma ag)"
  shows "actions (learn_times n ag s a r s2) = actions ag
     \<and> alpha (learn_times n ag s a r s2) = alpha ag
     \<and> gamma (learn_times n ag s a r s2) = gamma ag
     \<and> q_row (learn_times n ag s a r s2) k ! i =
         r / (1 - gamma ag)
         + (1 - alpha ag * (1 - gamma ag)) ^ n * (q_row ag k ! i - r / (1 - gamma ag))"
  using assms(3-10)
proof (induction n arbitrary: ag)
  case 0
  then show ?case by simp
next
  case (Suc n)
  let ?ag1 = "snd (learn ag s a r s2)"
  let ?F = "r / (1 - gamma ag)"
  let ?q = "q_row ag k ! i"
  let ?new = "?q + alpha ag * (r + gamma ag * ?q - ?q)"
  have il: "i < length (q_row ag k)"
    using index_of_Some [OF Suc.prems(5)] q_row_length [OF Suc.prems(6)] by simp
  have st: "actions ?ag1 = actions ag" "alpha ?ag1 = alpha ag" "gamma ?ag1 = gamma ag"
    "rows_ok ?ag1" "q_row ?ag1 k = (q_row ag k)[i := ?new]"
    using learn_step [OF assms(1) assms(2) Suc.prems(5,6), of r] Suc.prems(7) by auto
  have q1: "q_row ?ag1 k ! i = ?new"
    using st(5) il by simp
  have c: "0 < alpha ag * (1 - gamma ag)" "alpha ag * (1 - gamma ag) < 1"
  proof -
    show "0 < alpha ag * (1 - gamma ag)" using Suc.prems by simp
    have "alpha ag * (1 - gamma ag) < 1 * 1"
      using Suc.prems by (intro mult_strict_mono) auto
    then show "alpha ag * (1 - gamma ag) < 1" by simp
  qed
  have diff: "?new - ?F = (1 - alpha ag * (1 - gamma ag)) * (?q - ?F)"
    using td_self_loop_step [of "gamma ag" ?q "alpha ag" r] Suc.prems(4) by simp
  have "(1 - alpha ag * (1 - gamma ag)) * (?q - ?F) \<le> 0"
    using c Suc.prems(8) by (intro mult_nonneg_nonpos) auto
  with diff have le: "?new \<le> ?F" by linarith
  have "alpha ag * (1 - gamma ag) * (?q - ?F) \<le> 0"
    using c Suc.prems(8) by (intro mult_nonneg_nonpos) auto
  with diff have ge: "?q \<le> ?new" by (simp add: algebra_simps)
  have mx: "Max (set (q_row ?ag1 k)) = q_row ?ag1 k ! i"
    using Max_list_update [OF il Suc.prems(7) ge] st(5) q1 by simp
  have ih: "actions (learn_times n ?ag1 s a r s2) = actions ?ag1
     \<and> alpha (learn_times n ?ag1 s a r s2) = alpha ?ag1
     \<and> gamma (learn_times n ?ag1 s a r s2) = gamma ?ag1
     \<and> q_row (learn_times n ?ag1 s a r s2) k ! i =
         r / (1 - gamma ?ag1)
         + (1 - alpha ?ag1 * (1 - gamma ?ag1)) ^ n * (q_row ?ag1 k ! i - r / (1 - gamma ?ag1))"
    using Suc.prems st mx q1 le by (intro Suc.IH) auto
  have "q_row (learn_times n ?ag1 s a r s2) k ! i =
      ?F + (1 - alpha ag * (1 - gamma ag)) ^ n * (?new - ?F)"
    using ih st q1 by simp
  also have "\<dots> = ?F + (1 - alpha ag * (1 - gamma ag)) ^ Suc n * (?q - ?F)"
    by (subst diff) simp
  finally show ?case
    using ih st by simp
qed

lemma geometric_step:
  fixes c d :: real
  assumes "0 \<le> c" "c \<le> 1"
  shows "\<bar>c ^ Suc n * d\<bar> \<le> \<bar>c ^ n * d\<bar>"
proof -
  have "\<bar>c ^ Suc n * d\<bar> = c * \<bar>c ^ n * d\<bar>"
    using assms(1) by (simp add: abs_mult)
  also have "\<dots> \<le> 1 * \<bar>c ^ n * d\<bar>"
    using assms(2) by (intro mult_right_mono) auto
  finally show ?thesis by simp
qed


text \<open>
  C9, as stated, fails. After one \<open>learn\<close> call has given the next state the value 0.1, a
  \<open>learn\<close> call for another state with reward -0.01 (\<open>\<alpha>\<close> = 0.1, \<open>\<gamma>\<close> = 0.95) moves the
  value from 0 to 0.0085, away from reward / (1 - \<open>\<gamma>\<close>) = -0.2.
\<close>

theorem learn_moves_away_from_fixed_point:
  "0 < alpha (QLearningAgent ACTIONS) \<and> alpha (QLearningAgent ACTIONS) < 1
   \<and> 0 < gamma (QLearningAgent ACTIONS) \<and> gamma (QLearningAgent ACTIONS) < 1
   \<and> (-1/100) / (1 - gamma (QLearningAgent ACTIONS)) = -1/5
   \<and> q_value (snd (learn (QLearningAgent ACTIONS)
          (PTuple [PInt 1, PInt 1, PInt 0, PInt 0, PInt 1]) 1 1
          (PTuple [PInt 1, PInt 1, PInt 0, PInt 0, PInt 1]))) [0, 1, 0, 0, 1] 1 = 0
   \<and> q_value (snd (learn (snd (learn (QLearningAgent ACTIONS)
          (PTuple [PInt 1, PInt 1, PInt 0, PInt 0, PInt 1]) 1 1
          (PTuple [PInt 1, PInt 1, PInt 0, PInt 0, PInt 1])))
        (PTuple [PInt 0, PInt 1, PInt 0, PInt 0, PInt 1]) 1 (-1/100)
        (PTuple [PInt 1, PInt 1, PInt 0, PInt 0, PInt 1]))) [0, 1, 0, 0, 1] 1 = 17/2000
   \<and> \<bar>17/2000 - (-1/5)\<bar> > \<bar>0 - (-1/5 :: real)\<bar>"
  by (simp add: eval_defs)

text \<open>
  C9, amended. For valid states, an action in \<open>{-1, 0, 1}\<close>, a reward, \<open>\<alpha>\<close> and \<open>\<gamma>\<close> in
  \<open>(0, 1)\<close>, on an agent with the default actions and full rows: when the next state is a
  different key, \<open>n\<close> identical \<open>learn\<close> calls leave the value at
  \<open>T + (1 - \<alpha>)^n \<times> (Q - T)\<close> for the constant target \<open>T = r + \<gamma> \<times> max Q(s', \<cdot>)\<close>, each call
  no farther from \<open>T\<close> than the one before; when the next state is the state itself,
  \<open>Q(s, a)\<close> is the maximum of its row and is at most \<open>F = r / (1 - \<gamma>)\<close>, they leave it at
  \<open>F + (1 - \<alpha> \<times> (1 - \<gamma>))^n \<times> (Q - F)\<close>, each call no farther from \<open>F\<close> than the one
  before.
\<close>

theorem repeated_learn_moves_to_td_target:
  assumes "valid_state s" "valid_state s2" "a \<in> {-1, 0, 1}"
    "actions ag = ACTIONS" "rows_ok ag"
    "0 < alpha ag" "alpha ag < 1" "0 < gamma ag" "gamma ag < 1"
  shows "\<exists>k k2. validate_state s = Inr k \<and> validate_state s2 = Inr k2
     \<and> (k2 \<noteq> k \<longrightarrow>
          q_value (learn_times n ag s a r s2) k a =
            td_target ag r k2 + (1 - alpha ag) ^ n * (q_value ag k a - td_target ag r k2)
          \<and> \<bar>q_value (learn_times (Suc n) ag s a r s2) k a - td_target ag r k2\<bar>
              \<le> \<bar>q_value (learn_times n ag s a r s2) k a - td_target ag r k2\<bar>)
     \<and> (k2 = k \<and> q_value ag k a = Max (set (q_row ag k))
          \<and> q_value ag k a \<le> r / (1 - gamma ag) \<longrightarrow>
          q_value (learn_times n ag s a r s2) k a =
            r / (1 - gamma ag)
            + (1 - alpha ag * (1 - gamma ag)) ^ n * (q_value ag k a - r / (1 - gamma ag))
          \<and> \<bar>q_value (learn_times (Suc n) ag s a r s2) k a - r / (1 - gamma ag)\<bar>
              \<le> \<bar>q_value (learn_times n ag s a r s2) k a - r / (1 - gamma ag)\<bar>)"
proof -
  obtain k k2 where k: "validate_state s = Inr k" "validate_state s2 = Inr k2"
    using assms(1,2) validate_state_Inr_iff by blast
  obtain i where i: "index_of (actions ag) a = Some i"
    using assms(3,4) index_of_mem [of a "actions ag"] by (auto simp: ACTIONS_def)
  have qv0: "q_value ag k a = q_row ag k ! i"
    using i by (simp add: q_value_def)
  have other: "q_value (learn_times m ag s a r s2) k a =
            td_target ag r k2 + (1 - alpha ag) ^ m * (q_value ag k a - td_target ag r k2)"
    if "k2 \<noteq> k" for m
    using learn_times_other_state [OF k that i assms(5), of m r] i qv0
    by (simp add: q_value_def td_target_def)
  have other_mono: "\<bar>q_value (learn_times (Suc n) ag s a r s2) k a - td_target ag r k2\<bar>
              \<le> \<bar>q_value (learn_times n ag s a r s2) k a - td_target ag r k2\<bar>"
    if "k2 \<noteq> k"
    unfolding other [OF that]
    using geometric_step [of "1 - alpha ag" n "q_value ag k a - td_target ag r k2"] assms(6,7)
    by simp
  have c: "0 \<le> 1 - alpha ag * (1 - gamma ag)" "1 - alpha ag * (1 - gamma ag) \<le> 1"
  proof -
    have "alpha ag * (1 - gamma ag) \<le> 1 * 1"
      using assms(6-9) by (intro mult_mono) auto
    then show "0 \<le> 1 - alpha ag * (1 - gamma ag)" by simp
    show "1 - alpha ag * (1 - gamma ag) \<le> 1" using assms(6-9) by simp
  qed
  have self: "q_value (learn_times m ag s a r s2) k a =
            r / (1 - gamma ag)
            + (1 - alpha ag * (1 - gamma ag)) ^ m * (q_value ag k a - r / (1 - gamma ag))"
    if "k2 = k" "q_value ag k a = Max (set (q_row ag k))" "q_value ag k a \<le> r / (1 - gamma ag)"
    for m
  proof -
    have s2: "validate_state s2 = Inr k" using k that(1) by simp
    have "q_row (learn_times m ag s a r s2) k ! i =
         r / (1 - gamma ag)
         + (1 - alpha ag * (1 - gamma ag)) ^ m * (q_row ag k ! i - r / (1 - gamma ag))"
      and "actions (learn_times m ag s a r s2) = actions ag"
      using learn_times_same_state [OF k(1) s2 assms(6-9) i assms(5), of r m] that qv0 by auto
    then show ?thesis
      using i qv0 by (simp add: q_value_def)
  qed
  have self_mono: "\<bar>q_value (learn_times (Suc n) ag s a r s2) k a - r / (1 - gamma ag)\<bar>
              \<le> \<bar>q_value (learn_times n ag s a r s2) k a - r / (1 - gamma ag)\<bar>"
    if "k2 = k" "q_value ag k a = Max (set (q_row ag k))" "q_value ag k a \<le> r / (1 - gamma ag)"
    unfolding self [OF that]
    using geometric_step [OF c, of n "q_value ag k a - r / (1 - gamma ag)"]
    by simp
  show ?thesis
    using k other other_mono self self_mono by blast
qed


theorem repeated_learn_moves_to_td_target_witness:
  "valid_state (PTuple [PInt 0, PInt 1, PInt 0, PInt 0, PInt 1])
   \<and> valid_state (PTuple [PInt 1, PInt 1, PInt 0, PInt 0, PInt 1])
   \<and> rows_ok (QLearningAgent ACTIONS)
   \<and> 0 < alpha (QLearningAgent ACTIONS) \<and> alpha (QLearningAgent ACTIONS) < 1
   \<and> 0 < gamma (QLearningAgent ACTIONS) \<and> gamma (QLearningAgent ACTIONS) < 1
   \<and> q_value (learn_times (Suc (Suc 0)) (QLearningAgent ACTIONS)
        (PTuple [PInt 0, PInt 1, PInt 0, PInt 0, PInt 1]) 1 (1/2)
        (PTuple [PInt 1, PInt 1, PInt 0, PInt 0, PInt 1])) [0, 1, 0, 0, 1] 1
       = 1/2 + (1 - 1/10) ^ 2 * (0 - 1/2)
   \<and> q_value (learn_times (Suc (Suc 0)) (QLearningAgent ACTIONS)
        (PTuple [PInt 0, PInt 1, PInt 0, PInt 0, PInt 1]) 1 (1/2)
        (PTuple [PInt 0, PInt 1, PInt 0, PInt 0, PInt 1])) [0, 1, 0, 0, 1] 1
       = 10 + (1 - 1/10 * (1 - 95/100)) ^ 2 * (0 - 10)"
  using
    repeated_learn_moves_to_td_target [of "PTuple [PInt 0, PInt 1, PInt 0, PInt 0, PInt 1]"
      "PTuple [PInt 1, PInt 1, PInt 0, PInt 0, PInt 1]" 1 "QLearningAgent ACTIONS"
      "Suc (Suc 0)" "1/2"]
    repeated_learn_moves_to_td_target [of "PTuple [PInt 0, PInt 1, PInt 0, PInt 0, PInt 1]"
      "PTuple [PInt 0, PInt 1, PInt 0, PInt 0, PInt 1]" 1 "QLearningAgent ACTIONS"
      "Suc (Suc 0)" "1/2"]
  by (simp add: eval_defs valid_state_def rows_ok_def td_target_def power2_eq_square)


section \<open>Agents built by the constructor\<close>

text \<open>
  The hypotheses on the agent in the theorems above hold of \<open>QLearningAgent()\<close> and after
  every sequence of method calls on it.
\<close>

lemma rows_ok_insert_zeros:
  "rows_ok ag \<Longrightarrow>
     rows_ok (ag\<lparr>q_table := (q_table ag)(k \<mapsto> np_zeros (length (actions ag)))\<rparr>)"
  by (auto simp: rows_ok_iff np_zeros_def)

lemma get_qs_rows_ok: "rows_ok ag \<Longrightarrow> rows_ok (snd (get_qs ag s))"
  by (auto simp: get_qs_def Let_def rows_ok_insert_zeros split: sum.splits option.splits)

lemma choose_action_rows_ok: "rows_ok ag \<Longrightarrow> rows_ok (snd (choose_action ag s rand pick))"
proof (cases s rule: validate_state_cases)
  case (valid k)
  assume "rows_ok ag"
  with valid show ?thesis
    by (auto simp: choose_action_def get_qs_valid rows_ok_insert_zeros split: option.splits)
next
  case (invalid e)
  assume "rows_ok ag"
  with invalid show ?thesis by (simp add: choose_action_def)
qed

lemma learn_rows_ok:
  assumes "rows_ok ag"
  shows "rows_ok (snd (learn ag s a r s2))"
proof (cases s rule: validate_state_cases)
  case (invalid e)
  with assms show ?thesis by (simp add: learn_def)
next
  case (valid k)
  show ?thesis
  proof (cases s2 rule: validate_state_cases)
    case (invalid e)
    with valid assms show ?thesis by (simp add: learn_def)
  next
    case v2: (valid k2)
    show ?thesis
    proof (cases "index_of (actions ag) a")
      case None
      with valid v2 assms show ?thesis by (simp add: learn_def)
    next
      case (Some i)
      then show ?thesis
        using learn_step [OF valid(1) v2(1) Some assms] by simp
    qed
  qed
qed

lemma apply_call_inv:
  assumes "agent_inv ag"
  shows "agent_inv (apply_call ag c)"
proof -
  have eps: "epsilon_min ag \<le> epsilon ag" "0 \<le> epsilon_min ag" "epsilon_decay ag < 1"
    using assms by (auto simp: agent_inv_def EPSILON_MIN_def EPSILON_DECAY_def)
  show ?thesis
  proof (cases c)
    case (ChooseAction s rand pick)
    obtain out ag' where o: "choose_action ag s rand pick = (out, ag')"
      by (cases "choose_action ag s rand pick")
    have "actions ag' = actions ag \<and> alpha ag' = alpha ag \<and> gamma ag' = gamma ag"
      using o unfolding choose_action_def
      by (auto simp: Let_def split: sum.splits option.splits prod.splits outcome.splits if_splits
          dest!: get_qs_hyper)
    moreover have "rows_ok ag'"
      using choose_action_rows_ok [of ag s rand pick] assms o by (simp add: agent_inv_def)
    ultimately show ?thesis
      using choose_action_hyper [OF o] assms ChooseAction o by (simp add: agent_inv_def)
  next
    case (Learn s a r s2)
    obtain out ag' where o: "learn ag s a r s2 = (out, ag')"
      by (cases "learn ag s a r s2")
    have "rows_ok ag'"
      using learn_rows_ok [of ag s a r s2] assms o by (simp add: agent_inv_def)
    moreover have "EPSILON_MIN \<le> epsilon ag' \<and> epsilon ag' \<le> EPSILON_START"
      using learn_hyper [OF o] decayed_bounds [OF eps] assms by (auto simp: agent_inv_def)
    ultimately show ?thesis
      using learn_hyper [OF o] assms Learn o by (simp add: agent_inv_def)
  qed
qed

lemma constructor_inv: "agent_inv (QLearningAgent ACTIONS)"
  by (simp add: agent_inv_def QLearningAgent_def rows_ok_def EPSILON_MIN_def EPSILON_START_def)

lemma reachable_agents_inv:
  "\<forall>ag \<in> set (run_calls (QLearningAgent ACTIONS) cs). agent_inv ag"
proof -
  have "agent_inv ag0 \<Longrightarrow> \<forall>ag \<in> set (run_calls ag0 cs). agent_inv ag" for ag0
    by (induction cs arbitrary: ag0) (auto dest: apply_call_inv)
  then show ?thesis
    using constructor_inv by blast
qed

end
